theory Spec2Isabelle
  imports Main "HOL-Library.AList"
begin

section \<open>Python values as the tracer observes them\<close>

text \<open>
  The printer never looks inside a traced value. It asks for \<open>str(value)\<close>,
  \<open>repr(value)\<close>, the truth value and \<open>value.__class__\<close>, and any of the first three may
  raise. An exception is either derived from \<open>Exception\<close> or only from \<open>BaseException\<close>
  (\<open>KeyboardInterrupt\<close>, \<open>SystemExit\<close>, \<open>GeneratorExit\<close>); rendering it in an f-string calls its
  own \<open>__str__\<close>, which can raise in turn.
\<close>

datatype pyexc = PyExc (is_Exception: bool) (exc_str: "pyexc + string")

datatype pyattr = Property (fget: bool) | Other_attr

record pyclass =
  cls_module :: string
  cls_qualname :: string
  cls_dict :: "(string \<times> pyattr) list"

record pyobj =
  obj_class :: pyclass
  obj_str :: "pyexc + string"
  obj_repr :: "pyexc + string"
  obj_bool :: "pyexc + bool"

datatype pyval = PyInt int | PyObj pyobj

function show_nat :: "nat \<Rightarrow> string" where
  "show_nat n =
     (if n < 10 then [''0123456789'' ! n]
      else show_nat (n div 10) @ [''0123456789'' ! (n mod 10)])"
  by pat_completeness auto
termination
  by (relation "measure id") auto

declare show_nat.simps [simp del]

definition show_int :: "int \<Rightarrow> string" where
  "show_int i = (if i < 0 then CHR ''-'' # show_nat (nat (- i)) else show_nat (nat i))"

definition builtin :: "string \<Rightarrow> pyclass" where
  "builtin n = \<lparr>cls_module = ''builtins'', cls_qualname = n, cls_dict = []\<rparr>"

fun py_class :: "pyval \<Rightarrow> pyclass" where
  "py_class (PyInt i) = builtin ''int''"
| "py_class (PyObj ob) = obj_class ob"

fun py_str :: "pyval \<Rightarrow> pyexc + string" where
  "py_str (PyInt i) = Inr (show_int i)"
| "py_str (PyObj ob) = obj_str ob"

fun py_repr :: "pyval \<Rightarrow> pyexc + string" where
  "py_repr (PyInt i) = Inr (show_int i)"
| "py_repr (PyObj ob) = obj_repr ob"

fun py_bool :: "pyval \<Rightarrow> pyexc + bool" where
  "py_bool (PyInt i) = Inr (i \<noteq> 0)"
| "py_bool (PyObj ob) = obj_bool ob"

text \<open>The falsy built-in values: \<open>None\<close>, \<open>False\<close>, the empty string and the empty list.\<close>

definition py_None :: pyval where
  "py_None = PyObj \<lparr>obj_class = builtin ''NoneType'', obj_str = Inr ''None'',
     obj_repr = Inr ''None'', obj_bool = Inr False\<rparr>"

definition py_False :: pyval where
  "py_False = PyObj \<lparr>obj_class = builtin ''bool'', obj_str = Inr ''False'',
     obj_repr = Inr ''False'', obj_bool = Inr False\<rparr>"

definition py_empty_str :: pyval where
  "py_empty_str = PyObj \<lparr>obj_class = builtin ''str'', obj_str = Inr '''',
     obj_repr = Inr [CHR 0x27, CHR 0x27], obj_bool = Inr False\<rparr>"

definition py_empty_list :: pyval where
  "py_empty_list = PyObj \<lparr>obj_class = builtin ''list'', obj_str = Inr ''[]'',
     obj_repr = Inr ''[]'', obj_bool = Inr False\<rparr>"

section \<open>The value renderer\<close>

text \<open>
  \<open>display_string\<close>: the inner handler is a bare \<open>except:\<close> and catches whatever
  \<open>str(value)\<close> raises; the outer one is \<open>except Exception as exc\<close>, so what \<open>repr(value)\<close>
  raises is caught only when it derives from \<open>Exception\<close>, and the f-string of the handler
  renders \<open>exc\<close> with its own \<open>__str__\<close>.
\<close>

definition display_string :: "pyval \<Rightarrow> pyexc + string" where
  "display_string v =
     (case py_str v of
        Inr s \<Rightarrow> Inr s
      | Inl _ \<Rightarrow>
          (case py_repr v of
             Inr r \<Rightarrow> Inr r
           | Inl exc \<Rightarrow>
               if is_Exception exc
               then (case exc_str exc of
                       Inr msg \<Rightarrow> Inr (''Failed rendering value as a string, '' @ msg)
                     | Inl exc' \<Rightarrow> Inl exc')
               else Inl exc))"

section \<open>The output file name\<close>

text \<open>
  \<open>setup\<close> rewrites the test name with three \<open>re.sub\<close> calls. \<open>re.sub\<close> replaces the
  leftmost, longest, non-overlapping matches:
  \<^item> \<open>[^a-z0-9\-_]+\<close> matches a maximal run of characters outside the class;
  \<^item> \<open>_{2,}\<close> matches a maximal run of two or more underscores;
  \<^item> \<open>^_|^$\<close> matches only at the start of the string (no \<open>MULTILINE\<close> flag): one
    underscore there, or the empty string.
\<close>

definition wanted :: "char \<Rightarrow> bool" where
  "wanted c = (c \<in> set ''abcdefghijklmnopqrstuvwxyz0123456789-_'')"

function sub_unwanted :: "string \<Rightarrow> string" where
  "sub_unwanted [] = []"
| "sub_unwanted (c # cs) =
     (if wanted c then c # sub_unwanted cs
      else CHR ''_'' # sub_unwanted (dropWhile (\<lambda>d. \<not> wanted d) cs))"
  by pat_completeness auto
termination
  by (relation "measure length") (auto simp: length_dropWhile_le less_Suc_eq_le)

function sub_duplicate :: "string \<Rightarrow> string" where
  "sub_duplicate [] = []"
| "sub_duplicate [c] = [c]"
| "sub_duplicate (c # d # cs) =
     (if c = CHR ''_'' \<and> d = CHR ''_''
      then CHR ''_'' # sub_duplicate (dropWhile (\<lambda>x. x = CHR ''_'') cs)
      else c # sub_duplicate (d # cs))"
  by pat_completeness auto
termination
  by (relation "measure length") (auto simp: length_dropWhile_le less_Suc_eq_le le_SucI)

fun sub_leading :: "string \<Rightarrow> string" where
  "sub_leading [] = []"
| "sub_leading (c # cs) = (if c = CHR ''_'' then cs else c # cs)"

definition sanitize :: "string \<Rightarrow> string" where
  "sanitize fname = sub_leading (sub_duplicate (sub_unwanted fname))"

text \<open>A string without two adjacent underscores.\<close>

fun no_repeat :: "string \<Rightarrow> bool" where
  "no_repeat (c # d # cs) = (\<not> (c = CHR ''_'' \<and> d = CHR ''_'') \<and> no_repeat (d # cs))"
| "no_repeat cs = True"

section \<open>Events, frames and trace entries\<close>

text \<open>
  What the printer reads of a hunter event: its kind, the function object found for the frame
  (\<open>None\<close> when there is none) with its \<open>__module__\<close> and \<open>__qualname__\<close>, the file name,
  \<open>code.co_firstlineno\<close>, the frame, the code's \<open>co_varnames\<close> and \<open>co_argcount\<close>, and
  \<open>arg\<close> (the returned value of a return event). A frame is a mutable object: the event holds
  a reference to it, and its \<open>f_locals\<close> dict lives in the state below: a key the printer
  stores there stays until the printer pops it.
\<close>

record fobj =
  fo_module :: string
  fo_qualname :: string

record event =
  kind :: string
  function_object :: "fobj option"
  filename :: string
  co_firstlineno :: int
  frame :: nat
  co_varnames :: "string list"
  co_argcount :: nat
  arg :: pyval

record param =
  p_name :: string
  p_class :: string
  p_kind :: string
  p_value :: "string option"

record return_value =
  rv_class :: string
  rv_value :: string

text \<open>
  A trace entry is a dict; a key that an entry may lack is an optional field. \<open>fq_class\<close> is
  the bookkeeping key that \<open>__call__\<close> pops before the entry is serialised.
\<close>

record entry =
  e_fq_class :: "string option"
  e_id :: int
  e_event :: string
  e_defined_class :: string
  e_method_id :: string
  e_path :: string
  e_lineno :: int
  e_static :: "bool option"
  e_parameters :: "param list option"
  e_thread_id :: "int option"
  e_receiver :: "param option"
  e_parent_id :: "pyval option"
  e_return_value :: "return_value option"

section \<open>The classmap and the function tables\<close>

text \<open>
  A label list is a Python list whose elements are strings or lists again.
\<close>

datatype label = L_str string | L_list "label list"

record function_entry =
  fe_type :: string
  fe_name :: string
  fe_location :: string
  fe_static :: bool
  fe_labels :: "label list option"

text \<open>
  \<open>self.functions\<close> is a \<open>benedict\<close>: a dict whose string keys are key paths, split at the
  separator \<open>.\<close>, into a tree of nested dicts. What it stores are dicts (the tables, the dicts
  created for the segments of a key path, and the function entries, which are dicts too) with
  strings, booleans and lists in the function entries. Dicts keep insertion order, so a dict
  is an association list that \<open>AList.update\<close> extends at its end.
\<close>

datatype jval =
    J_str string
  | J_bool bool
  | J_list "jval list"
  | J_dict "(string \<times> jval) list"

fun label_json :: "label \<Rightarrow> jval" where
  "label_json (L_str s) = J_str s"
| "label_json (L_list ls) = J_list (map label_json ls)"

text \<open>The dict \<open>function_entry\<close> of \<open>add_function\<close>; the key \<open>labels\<close> is set last, if at all.\<close>

definition entry_dict :: "function_entry \<Rightarrow> jval" where
  "entry_dict fe =
     J_dict ([(''type'', J_str (fe_type fe)), (''name'', J_str (fe_name fe)),
              (''location'', J_str (fe_location fe)), (''static'', J_bool (fe_static fe))] @
             (case fe_labels fe of None \<Rightarrow> [] | Some ls \<Rightarrow> [(''labels'', J_list (map label_json ls))]))"

text \<open>
  The classmap is an anytree tree. A class node holds, as its attribute \<open>functions\<close>, the very
  dict that was stored under \<open>self.functions[fq_class]\<close>: the node keeps the key, and the dict
  is found in \<open>functions'\<close> of the state (the field \<open>self.functions\<close>) at the key path of that key.
\<close>

datatype ntype = T_none | T_package | T_class string

datatype node = Node (node_name: string) (node_type: ntype) (children: "node list")

text \<open>
  The output file is the list of what was written to it: literal text, a serialised entry,
  an exported classmap root together with the dicts its class nodes refer to, and the
  metadata line with the two strings handed to \<open>inflection.humanize\<close>. The library calls
  \<open>json.dumps\<close>, \<open>JsonExporter.export\<close> and \<open>inflection.humanize\<close> are taken to return.
\<close>

datatype chunk =
    Text string
  | Json_entry entry
  | Json_export node jval
  | Json_metadata string string

record py_file =
  f_path :: string
  f_closed :: bool
  f_data :: "chunk list"

record test_item =
  item_name :: string
  item_module :: string

datatype error =
    RuntimeError
  | KeyError string
  | AttributeError
  | ValueError
  | TypeError
  | ResolverError
  | OSError
  | Raised pyexc

record state =
  pytest_item :: test_item
  event_id :: int
  classmap :: node
  functions' :: jval
  appmap :: "py_file option"
  frames :: "nat \<Rightarrow> (string \<rightharpoonup> pyval)"
  stderr :: string

subsection \<open>String helpers\<close>

fun split_aux :: "char \<Rightarrow> string \<Rightarrow> string \<Rightarrow> string list" where
  "split_aux sep acc [] = [rev acc]"
| "split_aux sep acc (c # cs) =
     (if c = sep then rev acc # split_aux sep [] cs else split_aux sep (c # acc) cs)"

definition split :: "char \<Rightarrow> string \<Rightarrow> string list" where
  "split sep s = split_aux sep [] s"

text \<open>\<open>s.rpartition(sep)\<close>: the parts before and after the last separator.\<close>

definition rpartition :: "char \<Rightarrow> string \<Rightarrow> string \<times> string \<times> string" where
  "rpartition sep s =
     (if sep \<in> set s
      then (rev (drop 1 (dropWhile (\<lambda>c. c \<noteq> sep) (rev s))), [sep],
            rev (takeWhile (\<lambda>c. c \<noteq> sep) (rev s)))
      else ([], [], s))"

text \<open>\<open>key in s\<close> for two strings: \<open>key\<close> occurs in \<open>s\<close>.\<close>

definition occurs_in :: "string \<Rightarrow> string \<Rightarrow> bool" where
  "occurs_in key s = list_ex (\<lambda>i. take (length key) (drop i s) = key) [0..<Suc (length s)]"

subsection \<open>File writes\<close>

text \<open>Writing to a closed file raises \<open>ValueError\<close>.\<close>

definition f_write :: "py_file \<Rightarrow> chunk \<Rightarrow> error + py_file" where
  "f_write f c = (if f_closed f then Inl ValueError else Inr (f\<lparr>f_data := f_data f @ [c]\<rparr>))"

fun write_all :: "py_file \<Rightarrow> chunk list \<Rightarrow> error + py_file" where
  "write_all f [] = Inr f"
| "write_all f (c # cs) =
     (case f_write f c of Inl err \<Rightarrow> Inl err | Inr f' \<Rightarrow> write_all f' cs)"

subsection \<open>Key paths of the benedict\<close>

text \<open>
  A string key is split at \<open>.\<close> into its segments (benedict's index syntax \<open>name[i]\<close> and its
  wildcard segment are not modelled: a segment is a plain dict key).

  \<open>get_item d keys\<close> is the lookup \<open>d[key]\<close>, \<open>None\<close> for a \<open>KeyError\<close>: it goes down through
  dicts, and a segment that is missing, or that is asked of a value that is not a dict, is a
  \<open>KeyError\<close>. \<open>key in d\<close> holds when the lookup succeeds.
\<close>

definition parse_keys :: "string \<Rightarrow> string list" where
  "parse_keys key = split CHR ''.'' key"

fun get_item :: "jval \<Rightarrow> string list \<Rightarrow> jval option" where
  "get_item v [] = Some v"
| "get_item (J_dict items) (k # ks) =
     (case map_of items k of None \<Rightarrow> None | Some v \<Rightarrow> get_item v ks)"
| "get_item v (k # ks) = None"

definition contains :: "jval \<Rightarrow> string \<Rightarrow> bool" where
  "contains d key = (get_item d (parse_keys key) \<noteq> None)"

text \<open>
  \<open>set_item d keys v\<close> is the assignment \<open>d[key] = v\<close>. For every segment but the last it takes
  the value found there when that is a dict or a list, and otherwise (nothing there, or a
  string or a boolean) stores a new empty dict there and goes on in it; the last segment is
  assigned in the dict reached. Assigning a string segment in a list raises \<open>TypeError\<close>.
\<close>

fun is_container :: "jval \<Rightarrow> bool" where
  "is_container (J_dict items) = True"
| "is_container (J_list xs) = True"
| "is_container v = False"

fun set_item :: "jval \<Rightarrow> string list \<Rightarrow> jval \<Rightarrow> error + jval" where
  "set_item d [] v = Inr d"
| "set_item (J_dict items) [k] v = Inr (J_dict (AList.update k v items))"
| "set_item (J_dict items) (k # k' # ks) v =
     (let child = (case map_of items k of
                     None \<Rightarrow> J_dict []
                   | Some c \<Rightarrow> if is_container c then c else J_dict [])
      in case set_item child (k' # ks) v of
           Inl err \<Rightarrow> Inl err
         | Inr child' \<Rightarrow> Inr (J_dict (AList.update k child' items)))"
| "set_item d (k # ks) v = Inl TypeError"

text \<open>
  \<open>self.functions[fq_class]\<close> returns the stored dict itself, so what is assigned in it is
  assigned in the tree: \<open>put_at d keys v\<close> is the tree in which the value at the key path
  has become \<open>v\<close>.
\<close>

fun put_at :: "jval \<Rightarrow> string list \<Rightarrow> jval \<Rightarrow> jval" where
  "put_at d [] v = v"
| "put_at (J_dict items) (k # ks) v =
     (case map_of items k of
        None \<Rightarrow> J_dict items
      | Some c \<Rightarrow> J_dict (AList.update k (put_at c ks v) items))"
| "put_at d (k # ks) v = d"

subsection \<open>add_to_classmap\<close>

text \<open>
  A node of the tree is addressed by the positions of the children on the way to it from
  the root. \<open>Node(name, parent=p, ...)\<close> appends the new node to the children of \<open>p\<close>.
\<close>

fun node_at :: "node \<Rightarrow> nat list \<Rightarrow> node option" where
  "node_at n [] = Some n"
| "node_at n (i # is) =
     (if i < length (children n) then node_at (children n ! i) is else None)"

fun add_child :: "node \<Rightarrow> nat list \<Rightarrow> node \<Rightarrow> node" where
  "add_child (Node nm ty cs) [] c = Node nm ty (cs @ [c])"
| "add_child (Node nm ty cs) (i # is) c =
     (if i < length cs then Node nm ty (cs[i := add_child (cs ! i) is c]) else Node nm ty cs)"

definition children_at :: "node \<Rightarrow> nat list \<Rightarrow> node list" where
  "children_at root pos = (case node_at root pos of None \<Rightarrow> [] | Some n \<Rightarrow> children n)"

fun find_child :: "node list \<Rightarrow> string \<Rightarrow> nat option" where
  "find_child [] name = None"
| "find_child (c # cs) name =
     (if node_name c = name then Some 0 else map_option Suc (find_child cs name))"

text \<open>
  \<open>Resolver("name").get(map_entry, mod)\<close> splits the path \<open>mod\<close> at anytree's separator \<open>/\<close>.
  A path that starts with the separator is resolved from the root, whose name must be its
  first part (otherwise \<open>ResolverError\<close>). Then, part by part: an empty part stays at the
  node, any other part goes to the first child of that name and raises \<open>ChildResolverError\<close>
  when there is none. (The parts \<open>.\<close> and \<open>..\<close> do not occur: \<open>mod\<close> is a segment of a string
  that was split at the dots.)
\<close>

datatype resolved = Found "nat list" | ChildResolverError | Other_resolver_error

fun resolve_parts :: "node \<Rightarrow> nat list \<Rightarrow> string list \<Rightarrow> resolved" where
  "resolve_parts root pos [] = Found pos"
| "resolve_parts root pos (part # parts) =
     (if part = [] then resolve_parts root pos parts
      else
        (case find_child (children_at root pos) part of
           None \<Rightarrow> ChildResolverError
         | Some i \<Rightarrow> resolve_parts root (pos @ [i]) parts))"

definition resolver_get :: "node \<Rightarrow> nat list \<Rightarrow> string \<Rightarrow> resolved" where
  "resolver_get root pos path =
     (let parts = split CHR ''/'' path
      in if take 1 path = ''/''
         then (case tl parts of
                 [] \<Rightarrow> Other_resolver_error
               | p # rest \<Rightarrow>
                   if p = [] then Other_resolver_error
                   else if p \<noteq> node_name root then Other_resolver_error
                   else resolve_parts root [] rest)
         else resolve_parts root pos parts)"

text \<open>
  The loop of \<open>add_to_classmap\<close> over \<open>mods.split('.')\<close>, with the loop variable \<open>map_entry\<close>
  as a position: on \<open>ChildResolverError\<close> a package node named \<open>mod\<close> is created under
  \<open>map_entry\<close> and becomes the new \<open>map_entry\<close>; any other error of the resolver is not caught.
\<close>

fun walk_modules :: "node \<Rightarrow> nat list \<Rightarrow> string list \<Rightarrow> node \<times> (error + nat list)" where
  "walk_modules root map_entry [] = (root, Inr map_entry)"
| "walk_modules root map_entry (mod' # mods) =
     (case resolver_get root map_entry mod' of
        Found pos \<Rightarrow> walk_modules root pos mods
      | ChildResolverError \<Rightarrow>
          walk_modules (add_child root map_entry (Node mod' T_package []))
            (map_entry @ [length (children_at root map_entry)]) mods
      | Other_resolver_error \<Rightarrow> (root, Inl ResolverError))"

definition add_to_classmap :: "state \<Rightarrow> string \<Rightarrow> state \<times> error option" where
  "add_to_classmap s fq_class =
     (if contains (functions' s) fq_class then (s, None)
      else
        (case rpartition CHR ''.'' fq_class of
           (mods, _, cls) \<Rightarrow>
             (case walk_modules (classmap s) [] (split CHR ''.'' mods) of
                (root, Inl err) \<Rightarrow> (s\<lparr>classmap := root\<rparr>, Some err)
              | (root, Inr map_entry) \<Rightarrow>
                  (let s1 = s\<lparr>classmap := add_child root map_entry
                                              (Node cls (T_class fq_class) [])\<rparr>
                   in case set_item (functions' s) (parse_keys fq_class) (J_dict []) of
                        Inl err \<Rightarrow> (s1, Some err)
                      | Inr d \<Rightarrow> (s1\<lparr>functions' := d\<rparr>, None)))))"

subsection \<open>label_function and add_function\<close>

definition label_function :: "pyclass \<Rightarrow> string \<Rightarrow> label list" where
  "label_function cls name =
     (case map_of (cls_dict cls) name of
        Some (Property has_fget) \<Rightarrow> if has_fget then [L_list [L_str ''getter'']] else []
      | Some Other_attr \<Rightarrow> []
      | None \<Rightarrow> [])"

definition name_labels :: "string \<Rightarrow> label list" where
  "name_labels name =
     (if name = ''__init__'' then [L_str ''ctor'']
      else if name = ''__setattr__'' then [L_str ''setter'']
      else if name = ''__getattr__'' then [L_str ''getter'']
      else [])"

definition location_of :: "entry \<Rightarrow> string" where
  "location_of en = e_path en @ '':'' @ show_int (e_lineno en)"

definition new_function_entry :: "entry \<Rightarrow> pyclass option \<Rightarrow> function_entry" where
  "new_function_entry en instance_class =
     (let name = e_method_id en;
          labels = name_labels name;
          labels = (case instance_class of
                      None \<Rightarrow> labels
                    | Some cls \<Rightarrow>
                        (let function_labels = label_function cls name
                         in if length function_labels > 0
                            then labels @ [L_list function_labels] else labels))
      in \<lparr>fe_type = ''function'', fe_name = name, fe_location = location_of en,
          fe_static = False,
          fe_labels = (if length labels > 0 then Some labels else None)\<rparr>)"

text \<open>
  \<open>location in self.functions[fq_class]\<close>: a key path lookup when the value found under
  \<open>fq_class\<close> is a dict; Python's \<open>in\<close> on a list or a string otherwise, and a \<open>TypeError\<close> on
  a boolean.
\<close>

fun py_in :: "string \<Rightarrow> jval \<Rightarrow> error + bool" where
  "py_in key (J_dict items) = Inr (contains (J_dict items) key)"
| "py_in key (J_list xs) = Inr (J_str key \<in> set xs)"
| "py_in key (J_str s) = Inr (occurs_in key s)"
| "py_in key (J_bool b) = Inl TypeError"

definition add_function :: "state \<Rightarrow> string \<Rightarrow> entry \<Rightarrow> pyclass option \<Rightarrow> state \<times> error option" where
  "add_function s fq_class en instance_class =
     (case get_item (functions' s) (parse_keys fq_class) of
        None \<Rightarrow> (s, Some (KeyError fq_class))
      | Some table \<Rightarrow>
          (case py_in (location_of en) table of
             Inl err \<Rightarrow> (s, Some err)
           | Inr True \<Rightarrow> (s, None)
           | Inr False \<Rightarrow>
               (case table of
                  J_dict items \<Rightarrow>
                    (case set_item table (parse_keys (location_of en))
                            (entry_dict (new_function_entry en instance_class)) of
                       Inl err \<Rightarrow> (s, Some err)
                     | Inr table' \<Rightarrow>
                         (s\<lparr>functions' := put_at (functions' s) (parse_keys fq_class) table'\<rparr>,
                          None))
                | _ \<Rightarrow> (s, Some TypeError))))"

section \<open>The event translator\<close>

text \<open>
  Every operation takes the state and returns the state it leaves behind, also when it
  raises: what was mutated before the exception stays mutated. An operation that can raise
  returns \<open>Inl\<close> of the error; \<open>Inr None\<close> is Python's \<open>return None\<close>.
\<close>

definition inspect_event :: "state \<Rightarrow> event \<Rightarrow> state \<times> (error + entry option)" where
  "inspect_event s ev =
     (case function_object ev of
        None \<Rightarrow> (s, Inr None)
      | Some fo \<Rightarrow>
          if CHR ''.'' \<notin> set (fo_qualname fo) then (s, Inr None)
          else
            (case rpartition CHR ''.'' (fo_qualname fo) of
               (cls, _, method) \<Rightarrow>
                 (let fq_class = fo_module fo @ ''.'' @ cls;
                      en = \<lparr>e_fq_class = Some fq_class, e_id = event_id s, e_event = kind ev,
                            e_defined_class = cls, e_method_id = method, e_path = filename ev,
                            e_lineno = co_firstlineno ev, e_static = None, e_parameters = None,
                            e_thread_id = None, e_receiver = None, e_parent_id = None,
                            e_return_value = None\<rparr>
                  in case add_to_classmap s fq_class of
                       (s1, Some err) \<Rightarrow> (s1, Inl err)
                     | (s1, None) \<Rightarrow> (s1, Inr (Some en)))))"

text \<open>
  The sanity check \<open>'' in entry.values()\<close> of \<open>inspect_call\<close>: the integer values are never
  equal to the empty string.
\<close>

definition missing_values :: "entry \<Rightarrow> bool" where
  "missing_values en =
     ([] \<in> set ((case e_fq_class en of None \<Rightarrow> [] | Some fq \<Rightarrow> [fq]) @
        [e_event en, e_defined_class en, e_method_id en, e_path en]))"

text \<open>
  The loop of \<open>inspect_call\<close> over \<open>enumerate(co_varnames[:co_argcount])\<close>, on the frame's
  \<open>f_locals\<close>, with the loop variables \<open>receiver\<close>, \<open>instance_class\<close> and \<open>params\<close>.
\<close>

definition class_string :: "pyclass \<Rightarrow> string" where
  "class_string c = cls_module c @ ''.'' @ cls_qualname c"

fun inspect_params ::
  "(string \<rightharpoonup> pyval) \<Rightarrow> nat \<Rightarrow> string list \<Rightarrow> param option \<times> pyclass option \<times> param list \<Rightarrow>
     error + (param option \<times> pyclass option \<times> param list)" where
  "inspect_params f_locals i [] acc = Inr acc"
| "inspect_params f_locals i (p # ps) (receiver, instance_class, params) =
     (case f_locals p of
        None \<Rightarrow> Inl (KeyError p)
      | Some v \<Rightarrow>
          (let pm = \<lparr>p_name = p, p_class = class_string (py_class v), p_kind = ''req'',
                      p_value = None\<rparr>
           in if i = 0 \<and> p = ''self''
              then inspect_params f_locals (Suc i) ps (Some pm, Some (py_class v), params)
              else
                (case display_string v of
                   Inl exc \<Rightarrow> Inl (Raised exc)
                 | Inr str \<Rightarrow>
                     inspect_params f_locals (Suc i) ps
                       (receiver, instance_class,
                        params @ [pm\<lparr>p_value := Some (take 100 str)\<rparr>]))))"

definition token :: string where
  "token = ''_appmap_event_id''"

definition inspect_call :: "state \<Rightarrow> event \<Rightarrow> state \<times> (error + entry option)" where
  "inspect_call s ev =
     (case inspect_event s ev of
        (s1, Inl err) \<Rightarrow> (s1, Inl err)
      | (s1, Inr None) \<Rightarrow> (s1, Inr None)
      | (s1, Inr (Some en)) \<Rightarrow>
          if missing_values en then (s1, Inl RuntimeError)
          else
            (case inspect_params (frames s1 (frame ev)) 0
                    (take (co_argcount ev) (co_varnames ev)) (None, None, []) of
               Inl err \<Rightarrow> (s1, Inl err)
             | Inr (receiver, instance_class, params) \<Rightarrow>
                 (let s2 = s1\<lparr>frames := (frames s1)
                             (frame ev := (frames s1 (frame ev))(token \<mapsto> PyInt (event_id s1)))\<rparr>;
                      en1 = en\<lparr>e_static := Some True, e_parameters := Some params,
                              e_thread_id := Some 1\<rparr>;
                      en2 = (case receiver of
                               None \<Rightarrow> en1
                             | Some r \<Rightarrow> en1\<lparr>e_receiver := Some r, e_static := Some False\<rparr>)
                  in case e_fq_class en2 of
                       None \<Rightarrow> (s2, Inl (KeyError ''fq_class''))
                     | Some fq_class \<Rightarrow>
                         (case add_function s2 fq_class en2 instance_class of
                            (s3, Some err) \<Rightarrow> (s3, Inl err)
                          | (s3, None) \<Rightarrow> (s3, Inr (Some en2))))))"

definition inspect_return :: "state \<Rightarrow> event \<Rightarrow> state \<times> (error + entry option)" where
  "inspect_return s ev =
     (case inspect_event s ev of
        (s1, Inl err) \<Rightarrow> (s1, Inl err)
      | (s1, Inr None) \<Rightarrow> (s1, Inr None)
      | (s1, Inr (Some en)) \<Rightarrow>
          (case frames s1 (frame ev) token of
             None \<Rightarrow> (s1, Inr None)
           | Some parent_id \<Rightarrow>
               (let s2 = s1\<lparr>frames := (frames s1)
                           (frame ev := (frames s1 (frame ev))(token := None))\<rparr>;
                    ret = en\<lparr>e_parent_id := Some parent_id\<rparr>
                in case py_bool (arg ev) of
                     Inl exc \<Rightarrow> (s2, Inl (Raised exc))
                   | Inr False \<Rightarrow> (s2, Inr (Some ret))
                   | Inr True \<Rightarrow>
                       (case display_string (arg ev) of
                          Inl exc \<Rightarrow> (s2, Inl (Raised exc))
                        | Inr str \<Rightarrow>
                            (s2, Inr (Some (ret\<lparr>e_return_value :=
                               Some \<lparr>rv_class = class_string (py_class (arg ev)),
                                     rv_value = str\<rparr>\<rparr>)))))))"

text \<open>
  \<open>__call__\<close>. The result \<open>Inr (Some evt)\<close> is an emission: the entry that was written to
  the file, without its \<open>fq_class\<close>.
\<close>

definition call :: "state \<Rightarrow> event \<Rightarrow> state \<times> (error + entry option)" where
  "call s ev =
     (if kind ev \<noteq> ''call'' \<and> kind ev \<noteq> ''return'' then (s, Inr None)
      else
        (case (if kind ev = ''call'' then inspect_call s ev else inspect_return s ev) of
           (s1, Inl err) \<Rightarrow> (s1, Inl err)
         | (s1, Inr None) \<Rightarrow> (s1, Inr None)
         | (s1, Inr (Some evt)) \<Rightarrow>
             (case appmap s1 of
                None \<Rightarrow> (s1, Inl AttributeError)
              | Some f \<Rightarrow>
                  (case f_write f (Text (if event_id s1 > 1 then '','' else [])) of
                     Inl err \<Rightarrow> (s1, Inl err)
                   | Inr f1 \<Rightarrow>
                       (let evt' = evt\<lparr>e_fq_class := None\<rparr>
                        in case f_write f1 (Json_entry evt') of
                             Inl err \<Rightarrow> (s1\<lparr>appmap := Some f1\<rparr>, Inl err)
                           | Inr f2 \<Rightarrow>
                               (s1\<lparr>appmap := Some f2, event_id := event_id s1 + 1\<rparr>,
                                Inr (Some evt')))))))"

text \<open>
  A notification sequence: the events are handled one after the other, each in the state the
  one before left behind (also when that one raised), and the emitted entries are collected in
  emission order.
\<close>

fun run :: "state \<Rightarrow> event list \<Rightarrow> state \<times> entry list" where
  "run s [] = (s, [])"
| "run s (ev # evs) =
     (case call s ev of
        (s1, Inr (Some evt)) \<Rightarrow> (case run s1 evs of (s2, out) \<Rightarrow> (s2, evt # out))
      | (s1, _) \<Rightarrow> run s1 evs)"

section \<open>Session start and end\<close>

text \<open>
  \<open>setup\<close> opens the output file; \<open>can_open\<close> says whether \<open>os.makedirs\<close> and \<open>open\<close>
  succeed. \<open>__init__\<close> sets \<open>self.appmap = None\<close> before it calls \<open>setup\<close>, so that is what a
  failed \<open>setup\<close> leaves. \<open>fr\<close> are the frames of the traced program.
\<close>

definition setup' :: "bool \<Rightarrow> state \<Rightarrow> state \<times> error option" where
  "setup' can_open s =
     (let fname = sanitize (item_name (pytest_item s))
      in if \<not> can_open then (s, Some OSError)
         else
           (s\<lparr>appmap := Some \<lparr>f_path = ''tmp/appmap/pytest/'' @ fname @ ''.appmap.json'',
                 f_closed = False,
                 f_data = [Text (''{'' @ [CHR 0x22] @ ''version'' @ [CHR 0x22] @ '': '' @
                                  [CHR 0x22] @ ''1.2'' @ [CHR 0x22]),
                           Text ('','' @ [CHR 0x22] @ ''events'' @ [CHR 0x22] @ '': ['')]\<rparr>\<rparr>,
            None))"

definition init :: "test_item \<Rightarrow> (nat \<Rightarrow> (string \<rightharpoonup> pyval)) \<Rightarrow> bool \<Rightarrow> state \<times> error option" where
  "init item fr can_open =
     setup' can_open
       \<lparr>pytest_item = item, event_id = 1, classmap = Node ''root'' T_none [],
        functions' = J_dict [],
        appmap = None, frames = fr, stderr = []\<rparr>"

text \<open>
  \<open>humanize\<close> hands \<open>sub('^test_', '', str.replace('.', ' '))\<close> to \<open>inflection.humanize\<close>.
\<close>

definition humanize_arg :: "string \<Rightarrow> string" where
  "humanize_arg str =
     (let r = map (\<lambda>c. if c = CHR ''.'' then CHR '' '' else c) str
      in if take 5 r = ''test_'' then drop 5 r else r)"

fun export_roots :: "jval \<Rightarrow> string \<Rightarrow> node list \<Rightarrow> chunk list" where
  "export_roots tables comma [] = []"
| "export_roots tables comma (root # roots) =
     Text comma # Json_export root tables # export_roots tables '','' roots"

definition teardown :: "state \<Rightarrow> state \<times> error option" where
  "teardown s =
     (case appmap s of
        None \<Rightarrow> (s\<lparr>stderr := stderr s @ ''no appmap?'' @ [CHR 0x0A]\<rparr>, None)
      | Some f \<Rightarrow>
          (case write_all f
                  ([Text (''],'' @ [CHR 0x22] @ ''classMap'' @ [CHR 0x22] @ '':['' @ [CHR 0x0A])] @
                   export_roots (functions' s) [] (children (classmap s)) @
                   [Text '']'',
                    Json_metadata (humanize_arg (item_name (pytest_item s)))
                      (humanize_arg (item_module (pytest_item s)))]) of
             Inl err \<Rightarrow> (s, Some err)
           | Inr f' \<Rightarrow> (s\<lparr>appmap := Some (f'\<lparr>f_closed := True\<rparr>)\<rparr>, None)))"

section \<open>The class of an event\<close>

text \<open>
  The key \<open>fq_class\<close> that \<open>inspect_event\<close> computes for an event, \<open>None\<close> when it returns
  \<open>None\<close> (no function object, or a bare function).
\<close>

definition event_fq_class :: "event \<Rightarrow> string option" where
  "event_fq_class ev =
     (case function_object ev of
        None \<Rightarrow> None
      | Some fo \<Rightarrow>
          if CHR ''.'' \<notin> set (fo_qualname fo) then None
          else Some (fo_module fo @ ''.'' @ fst (rpartition CHR ''.'' (fo_qualname fo))))"

section \<open>Example inputs\<close>

text \<open>
  A value whose \<open>__str__\<close> raises an \<open>Exception\<close> and whose \<open>__repr__\<close> raises
  \<open>KeyboardInterrupt\<close>, and one whose \<open>__repr__\<close> raises an \<open>Exception\<close> too.
\<close>

definition account_class :: pyclass where
  "account_class = \<lparr>cls_module = ''bank.acct'', cls_qualname = ''Account'',
     cls_dict = [(''__init__'', Other_attr), (''withdraw'', Other_attr),
                 (''balance'', Property True)]\<rparr>"

definition broken_value :: pyval where
  "broken_value = PyObj \<lparr>obj_class = account_class,
     obj_str = Inl (PyExc True (Inr ''no str'')),
     obj_repr = Inl (PyExc False (Inr [])), obj_bool = Inr True\<rparr>"

definition unprintable_value :: pyval where
  "unprintable_value = PyObj \<lparr>obj_class = account_class,
     obj_str = Inl (PyExc True (Inr ''no str'')),
     obj_repr = Inl (PyExc True (Inr ''no repr'')), obj_bool = Inr True\<rparr>"

text \<open>The call entry of the property getter \<open>Account.balance\<close>, as \<open>inspect_call\<close> builds it.\<close>

definition getter_entry :: entry where
  "getter_entry = \<lparr>e_fq_class = Some ''bank.acct.Account'', e_id = 1, e_event = ''call'',
     e_defined_class = ''Account'', e_method_id = ''balance'', e_path = ''bank/acct.py'',
     e_lineno = 12, e_static = Some False, e_parameters = Some [], e_thread_id = Some 1,
     e_receiver = Some \<lparr>p_name = ''self'', p_class = ''bank.acct.Account'', p_kind = ''req'',
       p_value = None\<rparr>,
     e_parent_id = None, e_return_value = None\<rparr>"

text \<open>
  A session on the class \<open>Account\<close>: the frame of \<open>withdraw(self, amount)\<close> and the
  frame of a method whose first parameter is \<open>cls\<close>.
\<close>

definition example_item :: test_item where
  "example_item = \<lparr>item_name = ''test_withdraw'', item_module = ''tests.test_acct''\<rparr>"

definition account :: pyval where
  "account = PyObj \<lparr>obj_class = account_class, obj_str = Inr ''<Account>'',
     obj_repr = Inr ''<Account>'', obj_bool = Inr True\<rparr>"

definition example_frames :: "nat \<Rightarrow> (string \<rightharpoonup> pyval)" where
  "example_frames =
     (\<lambda>_. Map.empty)(7 := [''self'' \<mapsto> account, ''amount'' \<mapsto> PyInt 5],
                       8 := [''cls'' \<mapsto> account, ''self'' \<mapsto> PyInt 3])"

definition started :: state where
  "started = fst (init example_item example_frames True)"

definition call_withdraw :: event where
  "call_withdraw = \<lparr>kind = ''call'',
     function_object = Some \<lparr>fo_module = ''bank.acct'', fo_qualname = ''Account.withdraw''\<rparr>,
     filename = ''bank/acct.py'', co_firstlineno = 12, frame = 7,
     co_varnames = [''self'', ''amount'', ''fee''], co_argcount = 2, arg = py_None\<rparr>"

definition return_withdraw :: event where
  "return_withdraw = call_withdraw\<lparr>kind := ''return''\<rparr>"

definition call_create :: event where
  "call_create = \<lparr>kind = ''call'',
     function_object = Some \<lparr>fo_module = ''bank.acct'', fo_qualname = ''Account.create''\<rparr>,
     filename = ''bank/acct.py'', co_firstlineno = 30, frame = 8,
     co_varnames = [''cls'', ''self''], co_argcount = 2, arg = py_None\<rparr>"

text \<open>The constructor \<open>__init__(self, amount)\<close> on the same frame, and a return of 5.\<close>

definition call_init :: event where
  "call_init = \<lparr>kind = ''call'',
     function_object = Some \<lparr>fo_module = ''bank.acct'', fo_qualname = ''Account.__init__''\<rparr>,
     filename = ''bank/acct.py'', co_firstlineno = 5, frame = 7,
     co_varnames = [''self'', ''amount''], co_argcount = 2, arg = py_None\<rparr>"

definition return_init :: event where
  "return_init = call_init\<lparr>kind := ''return''\<rparr>"

definition return_amount :: event where
  "return_amount = call_withdraw\<lparr>kind := ''return'', arg := PyInt 5\<rparr>"

section \<open>Properties\<close>

subsection \<open>What each operation changes\<close>

lemma add_to_classmap_fields [simp]:
  "frames (fst (add_to_classmap s fq)) = frames s"
  "event_id (fst (add_to_classmap s fq)) = event_id s"
  "appmap (fst (add_to_classmap s fq)) = appmap s"
  by (simp_all add: add_to_classmap_def Let_def split: prod.splits sum.splits)

lemma add_to_classmap_registered:
  "contains (functions' s) fq \<Longrightarrow> add_to_classmap s fq = (s, None)"
  by (simp add: add_to_classmap_def)

lemma inspect_event_state:
  "fst (inspect_event s ev) =
     (case event_fq_class ev of None \<Rightarrow> s | Some fq \<Rightarrow> fst (add_to_classmap s fq))"
  by (simp add: inspect_event_def event_fq_class_def Let_def split: option.splits prod.splits)

lemma inspect_event_fields [simp]:
  "frames (fst (inspect_event s ev)) = frames s"
  "event_id (fst (inspect_event s ev)) = event_id s"
  "appmap (fst (inspect_event s ev)) = appmap s"
  by (simp_all add: inspect_event_state split: option.splits)

lemma inspect_event_Some:
  "snd (inspect_event s ev) = Inr (Some en) \<Longrightarrow>
     e_id en = event_id s \<and> e_fq_class en = event_fq_class ev \<and> e_event en = kind ev \<and>
     e_path en = filename ev \<and> e_lineno en = co_firstlineno ev \<and>
     e_static en = None \<and> e_parameters en = None \<and> e_receiver en = None \<and>
     e_parent_id en = None \<and> e_return_value en = None"
  by (auto simp add: inspect_event_def event_fq_class_def Let_def split: option.splits prod.splits if_splits)

lemma add_function_fields [simp]:
  "frames (fst (add_function s fq en ic)) = frames s"
  "event_id (fst (add_function s fq en ic)) = event_id s"
  "appmap (fst (add_function s fq en ic)) = appmap s"
  "classmap (fst (add_function s fq en ic)) = classmap s"
  by (simp_all add: add_function_def split: option.splits sum.splits bool.splits jval.splits)

lemma add_function_result:
  "add_function s fq en ic = (s', r) \<Longrightarrow>
     frames s' = frames s \<and> event_id s' = event_id s \<and> appmap s' = appmap s \<and>
     classmap s' = classmap s"
  by (auto simp: add_function_def
      split: option.splits sum.splits bool.splits jval.splits if_splits)

lemma inspect_event_result:
  "inspect_event s ev = (s', r) \<Longrightarrow>
     frames s' = frames s \<and> event_id s' = event_id s \<and> appmap s' = appmap s"
  using inspect_event_fields [of s ev] by simp

lemma inspect_call_fields [simp]:
  "event_id (fst (inspect_call s ev)) = event_id s"
  "appmap (fst (inspect_call s ev)) = appmap s"
  by (auto simp: inspect_call_def Let_def
      split: option.splits sum.splits prod.splits
      dest!: add_function_result inspect_event_result)

lemma inspect_return_fields [simp]:
  "event_id (fst (inspect_return s ev)) = event_id s"
  "appmap (fst (inspect_return s ev)) = appmap s"
  by (auto simp: inspect_return_def Let_def
      split: option.splits sum.splits prod.splits bool.splits
      dest!: inspect_event_result)

lemma call_ignored:
  "kind ev \<noteq> ''call'' \<Longrightarrow> kind ev \<noteq> ''return'' \<Longrightarrow> call s ev = (s, Inr None)"
  by (simp add: call_def)

lemma call_handled:
  assumes "kind ev = ''call'' \<or> kind ev = ''return''"
    and "(if kind ev = ''call'' then inspect_call s ev else inspect_return s ev) = (s1, res)"
  shows "call s ev =
     (case res of
        Inl err \<Rightarrow> (s1, Inl err)
      | Inr None \<Rightarrow> (s1, Inr None)
      | Inr (Some evt) \<Rightarrow>
          (case appmap s1 of
             None \<Rightarrow> (s1, Inl AttributeError)
           | Some f \<Rightarrow>
               if f_closed f then (s1, Inl ValueError)
               else (s1\<lparr>appmap := Some (f\<lparr>f_data := f_data f @
                          [Text (if event_id s1 > 1 then '','' else []),
                           Json_entry (evt\<lparr>e_fq_class := None\<rparr>)]\<rparr>),
                        event_id := event_id s1 + 1\<rparr>,
                     Inr (Some (evt\<lparr>e_fq_class := None\<rparr>)))))"
proof -
  have "call s ev =
     (case (s1, res) of
           (s1, Inl err) \<Rightarrow> (s1, Inl err)
         | (s1, Inr None) \<Rightarrow> (s1, Inr None)
         | (s1, Inr (Some evt)) \<Rightarrow>
             (case appmap s1 of
                None \<Rightarrow> (s1, Inl AttributeError)
              | Some f \<Rightarrow>
                  (case f_write f (Text (if event_id s1 > 1 then '','' else [])) of
                     Inl err \<Rightarrow> (s1, Inl err)
                   | Inr f1 \<Rightarrow>
                       (let evt' = evt\<lparr>e_fq_class := None\<rparr>
                        in case f_write f1 (Json_entry evt') of
                             Inl err \<Rightarrow> (s1\<lparr>appmap := Some f1\<rparr>, Inl err)
                           | Inr f2 \<Rightarrow>
                               (s1\<lparr>appmap := Some f2, event_id := event_id s1 + 1\<rparr>,
                                Inr (Some evt'))))))"
    using assms unfolding call_def by (cases "kind ev = ''call''") simp_all
  then show ?thesis
    by (simp add: f_write_def Let_def split: sum.splits option.splits)
qed

lemma inspect_call_emits:
  assumes "inspect_call s ev = (s', Inr (Some en))"
  shows "e_id en = event_id s \<and> e_parent_id en = None \<and> e_return_value en = None \<and>
     e_fq_class en = event_fq_class ev \<and>
     frames s' = (frames s)(frame ev := (frames s (frame ev))(token \<mapsto> PyInt (event_id s)))"
proof -
  obtain s1 r where ie: "inspect_event s ev = (s1, r)" by (cases "inspect_event s ev")
  from inspect_event_result [OF ie]
  have s1: "frames s1 = frames s" "event_id s1 = event_id s" by simp_all
  from assms ie obtain en0 where r: "r = Inr (Some en0)"
    by (cases r) (auto simp: inspect_call_def split: option.splits)
  from inspect_event_Some [of s ev en0] ie r
  have en0: "e_id en0 = event_id s" "e_parent_id en0 = None" "e_return_value en0 = None"
    "e_fq_class en0 = event_fq_class ev"
    by simp_all
  from assms show ?thesis
    unfolding inspect_call_def ie r
    by (auto simp: Let_def s1 en0 split: if_splits sum.splits option.splits prod.splits
        dest!: add_function_result)
qed

lemma inspect_return_emits:
  assumes "inspect_return s ev = (s', Inr (Some en))"
  shows "e_id en = event_id s \<and> e_parent_id en = frames s (frame ev) token \<and>
     e_fq_class en = event_fq_class ev \<and>
     (e_return_value en \<noteq> None) = (py_bool (arg ev) = Inr True) \<and>
     frames s' = (frames s)(frame ev := (frames s (frame ev))(token := None))"
proof -
  obtain s1 r where ie: "inspect_event s ev = (s1, r)" by (cases "inspect_event s ev")
  from inspect_event_result [OF ie]
  have s1: "frames s1 = frames s" "event_id s1 = event_id s" by simp_all
  from assms ie obtain en0 where r: "r = Inr (Some en0)"
    by (cases r) (auto simp: inspect_return_def split: option.splits)
  from inspect_event_Some [of s ev en0] ie r
  have en0: "e_id en0 = event_id s" "e_parent_id en0 = None" "e_return_value en0 = None"
    "e_fq_class en0 = event_fq_class ev"
    by simp_all
  from assms show ?thesis
    unfolding inspect_return_def ie r
    by (auto simp: Let_def s1 en0 split: if_splits sum.splits option.splits bool.splits)
qed

lemma call_counter:
  "(case snd (call s ev) of
      Inr (Some evt) \<Rightarrow> e_id evt = event_id s \<and> event_id (fst (call s ev)) = event_id s + 1
    | _ \<Rightarrow> event_id (fst (call s ev)) = event_id s)"
proof (cases "kind ev = ''call'' \<or> kind ev = ''return''")
  case False
  then show ?thesis by (simp add: call_ignored)
next
  case True
  obtain s1 res
    where i: "(if kind ev = ''call'' then inspect_call s ev else inspect_return s ev) = (s1, res)"
    by (cases "if kind ev = ''call'' then inspect_call s ev else inspect_return s ev")
  have "s1 = fst (if kind ev = ''call'' then inspect_call s ev else inspect_return s ev)"
    by (simp only: i fst_conv)
  then have s1: "event_id s1 = event_id s"
    by (simp split: if_splits)
  have en: "e_id en = event_id s" if "res = Inr (Some en)" for en
    using i that inspect_call_emits [of s ev s1 en] inspect_return_emits [of s ev s1 en]
    by (simp split: if_splits)
  show ?thesis
    unfolding call_handled [OF True i]
    by (simp add: s1 en split: sum.splits option.splits)
qed

lemma run_counter:
  "map e_id (snd (run s evs)) = map (\<lambda>i. event_id s + int i) [0..<length (snd (run s evs))] \<and>
   event_id (fst (run s evs)) = event_id s + int (length (snd (run s evs)))"
proof (induction evs arbitrary: s)
  case Nil
  show ?case by simp
next
  case (Cons ev evs)
  obtain s1 res where c: "call s ev = (s1, res)" by (cases "call s ev")
  obtain s2 out where r: "run s1 evs = (s2, out)" by (cases "run s1 evs")
  from Cons.IH [of s1] r
  have ih: "map e_id out = map (\<lambda>i. event_id s1 + int i) [0..<length out]"
    "event_id s2 = event_id s1 + int (length out)"
    by simp_all
  show ?case
  proof (cases "\<exists>evt. res = Inr (Some evt)")
    case True
    then obtain evt where res: "res = Inr (Some evt)" by blast
    from call_counter [of s ev] c res
    have e: "e_id evt = event_id s" "event_id s1 = event_id s + 1" by simp_all
    have "map (\<lambda>i. event_id s + int i) [0..<Suc (length out)] =
            event_id s # map (\<lambda>i. event_id s + 1 + int i) [0..<length out]"
      by (simp add: upt_rec [of 0] map_Suc_upt [symmetric] del: upt_Suc)
    with c res r ih e show ?thesis by simp
  next
    case False
    with call_counter [of s ev] c have e: "event_id s1 = event_id s"
      by (simp split: sum.splits option.splits)
    from False c have "run s (ev # evs) = run s1 evs"
      by (simp split: sum.splits option.splits)
    with r ih e show ?thesis by simp
  qed
qed

lemma init_counter: "event_id (fst (init item fr ok)) = 1"
  by (simp add: init_def setup'_def Let_def)

lemma call_emits:
  assumes "snd (call s ev) = Inr (Some evt)"
  shows "(kind ev = ''call'' \<or> kind ev = ''return'') \<and>
     (\<exists>s1 en. (if kind ev = ''call'' then inspect_call s ev else inspect_return s ev) =
                 (s1, Inr (Some en)) \<and>
              evt = en\<lparr>e_fq_class := None\<rparr> \<and>
              frames (fst (call s ev)) = frames s1 \<and>
              classmap (fst (call s ev)) = classmap s1 \<and>
              functions' (fst (call s ev)) = functions' s1)"
proof -
  have k: "kind ev = ''call'' \<or> kind ev = ''return''"
  proof (rule ccontr)
    assume "\<not> (kind ev = ''call'' \<or> kind ev = ''return'')"
    then have "call s ev = (s, Inr None)" by (simp add: call_ignored)
    with assms show False by simp
  qed
  obtain s1 res
    where i: "(if kind ev = ''call'' then inspect_call s ev else inspect_return s ev) = (s1, res)"
    by (cases "if kind ev = ''call'' then inspect_call s ev else inspect_return s ev")
  from assms show ?thesis
    unfolding call_handled [OF k i] using k i
    by (auto split: sum.splits option.splits if_splits)
qed

subsection \<open>Call and return correlation\<close>

lemma inspect_call_frames_other:
  "f \<noteq> frame ev \<Longrightarrow> frames (fst (inspect_call s ev)) f = frames s f"
  by (auto simp: inspect_call_def Let_def
      split: option.splits sum.splits prod.splits
      dest!: add_function_result inspect_event_result)

lemma inspect_return_frames_other:
  "f \<noteq> frame ev \<Longrightarrow> frames (fst (inspect_return s ev)) f = frames s f"
  by (auto simp: inspect_return_def Let_def
      split: option.splits sum.splits prod.splits bool.splits
      dest!: inspect_event_result)

lemma call_state_parts:
  assumes "kind ev = ''call'' \<or> kind ev = ''return''"
  shows "frames (fst (call s ev)) =
           frames (fst (if kind ev = ''call'' then inspect_call s ev else inspect_return s ev)) \<and>
         classmap (fst (call s ev)) =
           classmap (fst (if kind ev = ''call'' then inspect_call s ev else inspect_return s ev)) \<and>
         functions' (fst (call s ev)) =
           functions' (fst (if kind ev = ''call'' then inspect_call s ev else inspect_return s ev))"
proof -
  obtain s1 res
    where i: "(if kind ev = ''call'' then inspect_call s ev else inspect_return s ev) = (s1, res)"
    by (cases "if kind ev = ''call'' then inspect_call s ev else inspect_return s ev")
  show ?thesis
    unfolding call_handled [OF assms i] i
    by (simp split: sum.splits option.splits)
qed

lemma call_frames_other:
  assumes "frame ev \<noteq> f \<or> (kind ev \<noteq> ''call'' \<and> kind ev \<noteq> ''return'')"
  shows "frames (fst (call s ev)) f = frames s f"
proof (cases "kind ev = ''call'' \<or> kind ev = ''return''")
  case False
  then show ?thesis by (simp add: call_ignored)
next
  case True
  with assms have f: "f \<noteq> frame ev" by auto
  from call_state_parts [OF True, of s] f show ?thesis
    by (simp add: inspect_call_frames_other inspect_return_frames_other)
qed

lemma run_Cons_state: "fst (run s (ev # evs)) = fst (run (fst (call s ev)) evs)"
  by (simp split: prod.splits sum.splits option.splits)

lemma run_frames_other:
  assumes "\<forall>ev \<in> set evs. frame ev \<noteq> f \<or> (kind ev \<noteq> ''call'' \<and> kind ev \<noteq> ''return'')"
  shows "frames (fst (run s evs)) f = frames s f"
  using assms
proof (induction evs arbitrary: s)
  case Nil
  show ?case by simp
next
  case (Cons ev evs)
  from Cons.prems have "frames (fst (call s ev)) f = frames s f"
    by (intro call_frames_other) simp
  moreover from Cons.prems
  have "frames (fst (run (fst (call s ev)) evs)) f = frames (fst (call s ev)) f"
    by (intro Cons.IH) simp
  ultimately show ?case
    by (simp only: run_Cons_state)
qed

text \<open>
  C1. An emitted call entry leaves its id on the frame as the correlation token. When the
  notifications that follow are on other frames, or are of an ignored kind, and then a return
  notification on the same frame is emitted, the return entry's \<open>parent_id\<close> is the id of
  that call entry, and the token is gone from the frame.
\<close>

theorem return_parent_is_call_id:
  assumes "kind c = ''call''" and "call s c = (s1, Inr (Some ce))"
    and "\<forall>m \<in> set mids. frame m \<noteq> frame c \<or> (kind m \<noteq> ''call'' \<and> kind m \<noteq> ''return'')"
    and "run s1 mids = (s2, out)"
    and "kind r = ''return''" and "frame r = frame c"
    and "call s2 r = (s3, Inr (Some re))"
  shows "frames s1 (frame c) token = Some (PyInt (e_id ce)) \<and>
         e_parent_id re = Some (PyInt (e_id ce)) \<and>
         frames s3 (frame c) token = None"
proof -
  from call_emits [of s c ce] assms(1,2)
  obtain sc en where ic: "inspect_call s c = (sc, Inr (Some en))"
    and ce: "ce = en\<lparr>e_fq_class := None\<rparr>" and fr1: "frames s1 = frames sc"
    by auto
  from inspect_call_emits [OF ic] ce fr1
  have stamped: "frames s1 (frame c) token = Some (PyInt (e_id ce))"
    by simp
  from run_frames_other [OF assms(3), of s1] assms(4)
  have kept: "frames s2 (frame c) = frames s1 (frame c)"
    by simp
  from call_emits [of s2 r re] assms(5,7)
  obtain sr en' where ir: "inspect_return s2 r = (sr, Inr (Some en'))"
    and re: "re = en'\<lparr>e_fq_class := None\<rparr>" and fr3: "frames s3 = frames sr"
    by auto
  from inspect_return_emits [OF ir] re fr3 assms(6) kept stamped
  show ?thesis by simp
qed

theorem return_parent_is_call_id_witness:
  "\<exists>ce re.
     snd (call started call_withdraw) = Inr (Some ce) \<and>
     snd (call (fst (run (fst (call started call_withdraw)) [call_create])) return_withdraw) =
       Inr (Some re) \<and>
     frame call_create \<noteq> frame call_withdraw \<and>
     frame return_withdraw = frame call_withdraw \<and>
     e_id ce = 1 \<and> e_parent_id re = Some (PyInt 1)"
proof -
  let ?s1 = "fst (call started call_withdraw)"
  let ?s2 = "fst (run ?s1 [call_create])"
  have "case snd (call started call_withdraw) of
          Inr (Some ce) \<Rightarrow> e_id ce = 1 | _ \<Rightarrow> False"
    by code_simp
  then obtain ce where ce: "snd (call started call_withdraw) = Inr (Some ce)" and id: "e_id ce = 1"
    by (auto split: sum.splits option.splits)
  have "case snd (call ?s2 return_withdraw) of Inr (Some re) \<Rightarrow> True | _ \<Rightarrow> False"
    by code_simp
  then obtain re where re: "snd (call ?s2 return_withdraw) = Inr (Some re)"
    by (auto split: sum.splits option.splits)
  have k: "kind call_withdraw = ''call''" "kind return_withdraw = ''return''"
    and f: "frame return_withdraw = frame call_withdraw" "frame call_create \<noteq> frame call_withdraw"
    by (simp_all add: call_withdraw_def return_withdraw_def call_create_def)
  have c1: "call started call_withdraw = (?s1, Inr (Some ce))"
    using ce by (simp add: prod_eq_iff)
  have c2: "call ?s2 return_withdraw = (fst (call ?s2 return_withdraw), Inr (Some re))"
    using re by (simp add: prod_eq_iff)
  have r: "run ?s1 [call_create] = (?s2, snd (run ?s1 [call_create]))"
    by (simp add: prod_eq_iff)
  have m: "\<forall>m \<in> set [call_create].
             frame m \<noteq> frame call_withdraw \<or> (kind m \<noteq> ''call'' \<and> kind m \<noteq> ''return'')"
    using f by simp
  from return_parent_is_call_id [OF k(1) c1 m r k(2) f(1) c2] id
  have "e_parent_id re = Some (PyInt 1)" by simp
  with ce re f id show ?thesis by blast
qed

subsection \<open>Return notifications and the classmap\<close>

lemma split_aux_not_Nil: "split_aux sep acc s \<noteq> []"
  by (induction s arbitrary: acc) auto

lemma parse_keys_not_Nil: "parse_keys key \<noteq> []"
  by (simp add: parse_keys_def split_def split_aux_not_Nil)

lemma get_item_set_item:
  "set_item d keys v = Inr d' \<Longrightarrow> keys \<noteq> [] \<Longrightarrow> get_item d' keys = Some v"
proof (induction d keys v arbitrary: d' rule: set_item.induct)
  case (2 items k v)
  then show ?case by (auto simp: update_conv')
next
  case (3 items k k' ks v)
  let ?child = "case map_of items k of
                  None \<Rightarrow> J_dict []
                | Some c \<Rightarrow> if is_container c then c else J_dict []"
  from "3.prems"(1) obtain child'
    where c: "set_item ?child (k' # ks) v = Inr child'"
      and d': "d' = J_dict (AList.update k child' items)"
    by (auto simp: Let_def split: sum.splits)
  from "3.IH" [OF refl c] have "get_item child' (k' # ks) = Some v" by simp
  with d' show ?case by (simp add: update_conv')
qed simp_all

lemma add_to_classmap_table:
  assumes "\<not> contains (functions' s) fq" and "snd (add_to_classmap s fq) = None"
  shows "get_item (functions' (fst (add_to_classmap s fq))) (parse_keys fq) = Some (J_dict [])"
proof -
  from assms obtain d where "set_item (functions' s) (parse_keys fq) (J_dict []) = Inr d"
    and "functions' (fst (add_to_classmap s fq)) = d"
    by (auto simp: add_to_classmap_def Let_def split: prod.splits sum.splits)
  with get_item_set_item [of "functions' s" "parse_keys fq" "J_dict []" d] parse_keys_not_Nil [of fq]
  show ?thesis by simp
qed

lemma inspect_return_tables:
  "classmap (fst (inspect_return s ev)) = classmap (fst (inspect_event s ev)) \<and>
   functions' (fst (inspect_return s ev)) = functions' (fst (inspect_event s ev))"
  by (cases "inspect_event s ev")
     (simp add: inspect_return_def Let_def split: option.splits sum.splits bool.splits)

theorem return_registers_class:
  "kind return_withdraw = ''return'' \<and>
   snd (call started return_withdraw) = Inr None \<and>
   classmap (fst (call started return_withdraw)) \<noteq> classmap started \<and>
   functions' (fst (call started return_withdraw)) \<noteq> functions' started"
  by code_simp

text \<open>
  C5, as amended. A return notification never calls \<open>add_function\<close>. It leaves the
  package/class tree and \<open>self.functions\<close> as they are when \<open>inspect_event\<close> suppresses it (no
  function object, or a bare function) and when the key of its class is already in
  \<open>self.functions\<close> (the test \<open>fq_class in self.functions\<close> of \<open>add_to_classmap\<close>); for a class
  key that is not, it changes both exactly as \<open>add_to_classmap\<close> does for a call
  notification: nodes are appended to the tree and, unless that raises, an empty dict is
  stored under the class key. The theorem before this text is a suppressed return
  notification that changes both the tree and \<open>self.functions\<close>.
\<close>

theorem return_only_registers_class:
  assumes "kind ev = ''return''"
  shows "case event_fq_class ev of
           None \<Rightarrow>
             classmap (fst (call s ev)) = classmap s \<and>
             functions' (fst (call s ev)) = functions' s
         | Some fq \<Rightarrow>
             if contains (functions' s) fq
             then classmap (fst (call s ev)) = classmap s \<and>
                  functions' (fst (call s ev)) = functions' s
             else classmap (fst (call s ev)) = classmap (fst (add_to_classmap s fq)) \<and>
                  functions' (fst (call s ev)) = functions' (fst (add_to_classmap s fq)) \<and>
                  (if snd (add_to_classmap s fq) = None
                   then get_item (functions' (fst (call s ev))) (parse_keys fq) = Some (J_dict [])
                   else functions' (fst (call s ev)) = functions' s)"
proof -
  from assms have k: "kind ev = ''call'' \<or> kind ev = ''return''" and nc: "kind ev \<noteq> ''call''"
    by simp_all
  from call_state_parts [OF k, of s] nc inspect_return_tables [of s ev]
  have eq: "classmap (fst (call s ev)) = classmap (fst (inspect_event s ev))"
    "functions' (fst (call s ev)) = functions' (fst (inspect_event s ev))"
    by simp_all
  show ?thesis
  proof (cases "event_fq_class ev")
    case None
    with eq show ?thesis by (simp add: inspect_event_state)
  next
    case (Some fq)
    show ?thesis
    proof (cases "contains (functions' s) fq")
      case True
      with eq Some show ?thesis
        by (simp add: inspect_event_state add_to_classmap_registered)
    next
      case False
      have raised: "functions' (fst (add_to_classmap s fq)) = functions' s"
        if "snd (add_to_classmap s fq) \<noteq> None"
        using that False
        by (auto simp: add_to_classmap_def Let_def split: prod.splits sum.splits)
      from eq Some False add_to_classmap_table [OF False] raised show ?thesis
        by (simp add: inspect_event_state)
    qed
  qed
qed

theorem return_only_registers_class_witness:
  "kind return_withdraw = ''return'' \<and>
   event_fq_class return_withdraw = Some ''bank.acct.Account'' \<and>
   contains (functions' (fst (call started call_withdraw))) ''bank.acct.Account'' \<and>
   classmap (fst (call (fst (call started call_withdraw)) return_withdraw)) =
     classmap (fst (call started call_withdraw)) \<and>
   functions' (fst (call (fst (call started call_withdraw)) return_withdraw)) =
     functions' (fst (call started call_withdraw))"
proof -
  have k: "kind return_withdraw = ''return''"
    by (simp add: return_withdraw_def)
  have fq: "event_fq_class return_withdraw = Some ''bank.acct.Account''"
    by code_simp
  have reg: "contains (functions' (fst (call started call_withdraw))) ''bank.acct.Account''"
    by code_simp
  from return_only_registers_class [OF k, of "fst (call started call_withdraw)"] fq reg k
  show ?thesis by simp
qed

subsection \<open>Function nodes\<close>

text \<open>
  The deduplication of \<open>add_function\<close>: when the location is found in the dict of the class,
  nothing is changed.
\<close>

lemma add_function_known:
  "get_item (functions' s) (parse_keys fq) = Some table \<Longrightarrow>
   py_in (location_of en) table = Inr True \<Longrightarrow> add_function s fq en ic = (s, None)"
  by (simp add: add_function_def)


subsection \<open>Entry ids\<close>

text \<open>
  C2. The counter starts at 1; an emission carries the value of the counter as its id and
  increments the counter by one, and nothing else changes the counter (a suppressed
  notification, an ignored kind, an exception); so the ids emitted over any notification
  sequence are 1, 2, 3, ... in emission order, call and return entries alike.
\<close>

theorem entry_ids_consecutive:
  "event_id (fst (init item fr ok)) = 1 \<and>
   (case snd (call s ev) of
      Inr (Some evt) \<Rightarrow> e_id evt = event_id s \<and> event_id (fst (call s ev)) = event_id s + 1
    | _ \<Rightarrow> event_id (fst (call s ev)) = event_id s) \<and>
   map e_id (snd (run (fst (init item fr ok)) evs)) =
     map int [1..<Suc (length (snd (run (fst (init item fr ok)) evs)))]"
proof -
  let ?out = "snd (run (fst (init item fr ok)) evs)"
  have "map e_id ?out = map (\<lambda>i. 1 + int i) [0..<length ?out]"
    using run_counter [of "fst (init item fr ok)" evs] by (simp add: init_counter)
  also have "\<dots> = map int [1..<Suc (length ?out)]"
    by (simp add: map_Suc_upt [symmetric] del: upt_Suc)
  finally show ?thesis
    using call_counter [of s ev] by (simp add: init_counter)
qed

subsection \<open>Return values\<close>

text \<open>
  C9. An emitted return entry has a \<open>return_value\<close> field exactly when the truth value of
  the returned value is \<open>True\<close>; for \<open>None\<close>, \<open>False\<close>, \<open>0\<close>, the empty string and the empty
  list the entry has no such field.
\<close>

theorem return_value_iff_truthy:
  assumes "kind ev = ''return''" and "snd (call s ev) = Inr (Some ret)"
  shows "(e_return_value ret \<noteq> None) = (py_bool (arg ev) = Inr True) \<and>
         (arg ev \<in> {py_None, py_False, PyInt 0, py_empty_str, py_empty_list}
            \<longrightarrow> e_return_value ret = None)"
proof -
  from call_emits [OF assms(2)] assms(1)
  obtain s1 en where en: "inspect_return s ev = (s1, Inr (Some en))"
    and ret: "ret = en\<lparr>e_fq_class := None\<rparr>"
    by auto
  from inspect_return_emits [OF en]
  have iff: "(e_return_value en \<noteq> None) = (py_bool (arg ev) = Inr True)" by simp
  have "py_bool v \<noteq> Inr True"
    if "v \<in> {py_None, py_False, PyInt 0, py_empty_str, py_empty_list}" for v
    using that by (auto simp: py_None_def py_False_def py_empty_str_def py_empty_list_def)
  with iff ret show ?thesis by auto
qed

theorem return_value_iff_truthy_witness:
  "\<exists>ret. snd (call (fst (call started call_withdraw)) return_withdraw) = Inr (Some ret) \<and>
     kind return_withdraw = ''return'' \<and> arg return_withdraw = py_None \<and>
     py_bool (arg return_withdraw) \<noteq> Inr True \<and> e_return_value ret = None"
proof -
  have "case snd (call (fst (call started call_withdraw)) return_withdraw) of
          Inr (Some ret) \<Rightarrow> True | _ \<Rightarrow> False"
    by code_simp
  then obtain ret
    where ret: "snd (call (fst (call started call_withdraw)) return_withdraw) = Inr (Some ret)"
    by (auto split: sum.splits option.splits)
  have k: "kind return_withdraw = ''return''" and a: "arg return_withdraw = py_None"
    by (simp_all add: return_withdraw_def call_withdraw_def)
  from return_value_iff_truthy [OF k ret] a ret k show ?thesis
    by (simp add: py_None_def)
qed

subsection \<open>Receiver and parameters\<close>

lemma inspect_params_rest:
  assumes "inspect_params fl (Suc i) ps (rcv, ic, acc) = Inr (rcv', ic', out)"
  shows "rcv' = rcv \<and> ic' = ic \<and>
     (\<exists>new. out = acc @ new \<and>
        list_all2 (\<lambda>p pm. \<exists>v str. fl p = Some v \<and> display_string v = Inr str \<and>
            pm = \<lparr>p_name = p, p_class = class_string (py_class v), p_kind = ''req'',
                   p_value = Some (take 100 str)\<rparr>) ps new)"
  using assms
proof (induction ps arbitrary: i acc)
  case Nil
  then show ?case by simp
next
  case (Cons p ps)
  from Cons.prems obtain v where v: "fl p = Some v"
    by (cases "fl p") simp_all
  from Cons.prems v obtain str where str: "display_string v = Inr str"
    by (cases "display_string v") (simp_all add: Let_def)
  let ?pm = "\<lparr>p_name = p, p_class = class_string (py_class v), p_kind = ''req'',
                   p_value = Some (take 100 str)\<rparr>"
  from Cons.prems v str
  have "inspect_params fl (Suc (Suc i)) ps (rcv, ic, acc @ [?pm]) = Inr (rcv', ic', out)"
    by (simp add: Let_def)
  from Cons.IH [OF this] obtain new where "rcv' = rcv" "ic' = ic" "out = (acc @ [?pm]) @ new"
    and all: "list_all2 (\<lambda>p pm. \<exists>v str. fl p = Some v \<and> display_string v = Inr str \<and>
            pm = \<lparr>p_name = p, p_class = class_string (py_class v), p_kind = ''req'',
                   p_value = Some (take 100 str)\<rparr>) ps new"
    by blast
  with v str show ?case
    by (intro conjI exI [of _ "?pm # new"]) simp_all
qed

lemma inspect_params_first:
  assumes "inspect_params fl 0 names (None, None, []) = Inr (rcv, ic, params)"
  shows "if names \<noteq> [] \<and> hd names = ''self''
     then (\<exists>v. fl ''self'' = Some v \<and> ic = Some (py_class v) \<and>
             rcv = Some \<lparr>p_name = ''self'', p_class = class_string (py_class v),
                           p_kind = ''req'', p_value = None\<rparr>) \<and>
          list_all2 (\<lambda>p pm. \<exists>v str. fl p = Some v \<and> display_string v = Inr str \<and>
            pm = \<lparr>p_name = p, p_class = class_string (py_class v), p_kind = ''req'',
                   p_value = Some (take 100 str)\<rparr>) (tl names) params
     else rcv = None \<and> ic = None \<and>
          list_all2 (\<lambda>p pm. \<exists>v str. fl p = Some v \<and> display_string v = Inr str \<and>
            pm = \<lparr>p_name = p, p_class = class_string (py_class v), p_kind = ''req'',
                   p_value = Some (take 100 str)\<rparr>) names params"
proof (cases names)
  case Nil
  with assms show ?thesis by simp
next
  case (Cons p ps)
  from assms Cons obtain v where v: "fl p = Some v"
    by (cases "fl p") simp_all
  show ?thesis
  proof (cases "p = ''self''")
    case True
    let ?pm = "\<lparr>p_name = ''self'', p_class = class_string (py_class v), p_kind = ''req'',
                   p_value = None\<rparr>"
    from assms Cons v True
    have "inspect_params fl (Suc 0) ps (Some ?pm, Some (py_class v), []) = Inr (rcv, ic, params)"
      by (simp add: Let_def)
    from inspect_params_rest [OF this] Cons v True show ?thesis by simp
  next
    case False
    from assms Cons v False obtain str where str: "display_string v = Inr str"
      by (cases "display_string v") (simp_all add: Let_def)
    let ?pm = "\<lparr>p_name = p, p_class = class_string (py_class v), p_kind = ''req'',
                   p_value = Some (take 100 str)\<rparr>"
    from assms Cons v False str
    have "inspect_params fl (Suc 0) ps (None, None, [] @ [?pm]) = Inr (rcv, ic, params)"
      by (simp add: Let_def)
    from inspect_params_rest [OF this] Cons v False str show ?thesis by auto
  qed
qed

lemma inspect_call_params:
  assumes "inspect_call s ev = (s', Inr (Some en))"
  shows "\<exists>rcv ic params.
     inspect_params (frames s (frame ev)) 0 (take (co_argcount ev) (co_varnames ev))
       (None, None, []) = Inr (rcv, ic, params) \<and>
     e_parameters en = Some params \<and> e_receiver en = rcv \<and> e_static en = Some (rcv = None)"
proof -
  obtain s1 r where ie: "inspect_event s ev = (s1, r)" by (cases "inspect_event s ev")
  from inspect_event_result [OF ie]
  have s1: "frames s1 = frames s" by simp
  from assms ie obtain en0 where r: "r = Inr (Some en0)"
    by (cases r) (auto simp: inspect_call_def split: option.splits)
  from inspect_event_Some [of s ev en0] ie r
  have en0: "e_receiver en0 = None"
    by simp
  from assms show ?thesis
    unfolding inspect_call_def ie r
    by (auto simp: Let_def s1 en0 split: if_splits sum.splits option.splits prod.splits)
qed

text \<open>
  C10. In an emitted call entry, with \<open>names\<close> the declared positional parameters: when the
  first of them is named \<open>self\<close>, the entry is not static, its receiver is that parameter
  (without a value) and the parameters are the others, in order; in every other case (no
  parameter, a first parameter of another name such as \<open>cls\<close>, \<open>self\<close> at a later position)
  the entry is static, has no receiver, and every name is in the parameters. Each parameter
  carries the first 100 characters of its rendered value.
\<close>

theorem receiver_is_first_parameter_self:
  assumes "kind ev = ''call''" and "snd (call s ev) = Inr (Some en)"
    and "names = take (co_argcount ev) (co_varnames ev)"
  shows "\<exists>params. e_parameters en = Some params \<and>
     (if names \<noteq> [] \<and> hd names = ''self''
      then e_static en = Some False \<and>
           (\<exists>v. frames s (frame ev) ''self'' = Some v \<and>
              e_receiver en = Some \<lparr>p_name = ''self'', p_class = class_string (py_class v),
                                     p_kind = ''req'', p_value = None\<rparr>) \<and>
           list_all2 (\<lambda>p pm. \<exists>v str. frames s (frame ev) p = Some v \<and>
               display_string v = Inr str \<and>
               pm = \<lparr>p_name = p, p_class = class_string (py_class v), p_kind = ''req'',
                      p_value = Some (take 100 str)\<rparr>) (tl names) params
      else e_static en = Some True \<and> e_receiver en = None \<and>
           list_all2 (\<lambda>p pm. \<exists>v str. frames s (frame ev) p = Some v \<and>
               display_string v = Inr str \<and>
               pm = \<lparr>p_name = p, p_class = class_string (py_class v), p_kind = ''req'',
                      p_value = Some (take 100 str)\<rparr>) names params)"
proof -
  from call_emits [OF assms(2)] assms(1)
  obtain s1 en1 where en1: "inspect_call s ev = (s1, Inr (Some en1))"
    and en: "en = en1\<lparr>e_fq_class := None\<rparr>"
    by auto
  from inspect_call_params [OF en1] assms(3)
  obtain rcv ic params
    where ip: "inspect_params (frames s (frame ev)) 0 names (None, None, []) = Inr (rcv, ic, params)"
      and f: "e_parameters en1 = Some params" "e_receiver en1 = rcv" "e_static en1 = Some (rcv = None)"
    by auto
  from inspect_params_first [OF ip] f en show ?thesis
    by (auto split: if_splits)
qed

theorem receiver_is_first_parameter_self_witness:
  "\<exists>en params. snd (call started call_create) = Inr (Some en) \<and>
     kind call_create = ''call'' \<and>
     take (co_argcount call_create) (co_varnames call_create) = [''cls'', ''self''] \<and>
     e_static en = Some True \<and> e_receiver en = None \<and>
     e_parameters en = Some params \<and> map p_name params = [''cls'', ''self'']"
proof -
  have "case snd (call started call_create) of Inr (Some en) \<Rightarrow> True | _ \<Rightarrow> False"
    by code_simp
  then obtain en where en: "snd (call started call_create) = Inr (Some en)"
    by (auto split: sum.splits option.splits)
  have k: "kind call_create = ''call''"
    and n: "take (co_argcount call_create) (co_varnames call_create) = [''cls'', ''self'']"
    by (simp_all add: call_create_def)
  from receiver_is_first_parameter_self [OF k en n [symmetric]]
  obtain params where p: "e_parameters en = Some params"
    "e_static en = Some True" "e_receiver en = None" "map p_name params = [''cls'', ''self'']"
    by (auto simp: list_all2_Cons1)
  show ?thesis
    by (rule exI [of _ en], rule exI [of _ params]) (simp add: en k n p)
qed

subsection \<open>The value renderer\<close>

lemma display_string_propagates:
  "py_str v = Inl e \<Longrightarrow> py_repr v = Inl exc \<Longrightarrow> \<not> is_Exception exc \<Longrightarrow>
     display_string v = Inl exc"
  by (simp add: display_string_def)

theorem display_string_raises:
  "display_string broken_value = Inl (PyExc False (Inr []))"
  by (simp add: display_string_def broken_value_def)

text \<open>
  C8, as amended. The value renderer returns a string, and does not raise, for every value
  whose \<open>repr\<close>, when \<open>str\<close> and \<open>repr\<close> both fail, fails with an error derived from
  \<open>Exception\<close> whose message can be rendered: the string is \<open>str(value)\<close> when that succeeds,
  otherwise \<open>repr(value)\<close> when that succeeds, otherwise the diagnostic text followed by the
  failure reason. The theorem before this text is a value for which the renderer raises:
  its \<open>repr\<close> fails with an error that is not derived from \<open>Exception\<close>.
\<close>

theorem display_string_layers:
  assumes "\<And>e exc. py_str v = Inl e \<Longrightarrow> py_repr v = Inl exc \<Longrightarrow>
             is_Exception exc \<and> (\<exists>msg. exc_str exc = Inr msg)"
  shows "\<exists>str. display_string v = Inr str \<and>
           (case py_str v of
              Inr s \<Rightarrow> str = s
            | Inl _ \<Rightarrow>
                (case py_repr v of
                   Inr r \<Rightarrow> str = r
                 | Inl exc \<Rightarrow>
                     (\<exists>msg. exc_str exc = Inr msg \<and>
                        str = ''Failed rendering value as a string, '' @ msg)))"
proof (cases "py_str v")
  case (Inr s)
  then show ?thesis by (simp add: display_string_def)
next
  case strfail: (Inl e)
  show ?thesis
  proof (cases "py_repr v")
    case (Inr r)
    with strfail show ?thesis by (simp add: display_string_def)
  next
    case (Inl exc)
    from assms [OF strfail Inl] obtain msg where "is_Exception exc" "exc_str exc = Inr msg"
      by blast
    with strfail Inl show ?thesis by (simp add: display_string_def)
  qed
qed

theorem display_string_layers_witness:
  "\<exists>str. display_string unprintable_value = Inr str \<and>
     str = ''Failed rendering value as a string, no repr''"
proof -
  have "is_Exception exc \<and> (\<exists>msg. exc_str exc = Inr msg)"
    if "py_str unprintable_value = Inl e" and "py_repr unprintable_value = Inl exc" for e exc
    using that by (auto simp: unprintable_value_def)
  from display_string_layers [of unprintable_value, OF this]
  show ?thesis by (auto simp: unprintable_value_def)
qed

subsection \<open>The output file name\<close>

text \<open>
  For every test name the stem has only characters of \<open>[a-z0-9\-_]\<close>, no two adjacent
  underscores and no leading underscore.
\<close>

lemma wanted_underscore: "wanted CHR ''_''"
  by (simp add: wanted_def)

lemma sub_unwanted_wanted: "c \<in> set (sub_unwanted s) \<Longrightarrow> wanted c"
proof (induction s arbitrary: c rule: sub_unwanted.induct)
  case 1
  then show ?case by simp
next
  case (2 d ds)
  show ?case
  proof (cases "wanted d")
    case True
    from 2(3) True have "c = d \<or> c \<in> set (sub_unwanted ds)" by simp
    with 2(1) [OF True] True show ?thesis by blast
  next
    case False
    from 2(3) False have "c = CHR ''_'' \<or> c \<in> set (sub_unwanted (dropWhile (\<lambda>d. \<not> wanted d) ds))"
      by simp
    with 2(2) [OF False] wanted_underscore show ?thesis by blast
  qed
qed

lemma sub_duplicate_subset: "set (sub_duplicate s) \<subseteq> set s"
proof (induction s rule: sub_duplicate.induct)
  case (3 c d cs)
  have "set (dropWhile (\<lambda>x. x = CHR ''_'') cs) \<subseteq> set cs"
    by (rule set_dropWhileD [THEN subsetI])
  with 3 show ?case by auto
qed simp_all

lemma sub_leading_subset: "set (sub_leading s) \<subseteq> set s"
  by (cases s) auto

lemma sub_duplicate_head:
  "sub_duplicate s = [] \<longleftrightarrow> s = []" "s \<noteq> [] \<Longrightarrow> hd (sub_duplicate s) = hd s"
  by (induction s rule: sub_duplicate.induct) auto

lemma dropWhile_head: "dropWhile P cs \<noteq> [] \<Longrightarrow> \<not> P (hd (dropWhile P cs))"
  by (metis hd_dropWhile)

lemma no_repeat_Cons:
  "no_repeat (c # cs) = ((cs \<noteq> [] \<longrightarrow> \<not> (c = CHR ''_'' \<and> hd cs = CHR ''_'')) \<and> no_repeat cs)"
  by (cases cs) auto

lemma sub_duplicate_no_repeat: "no_repeat (sub_duplicate s)"
proof (induction s rule: sub_duplicate.induct)
  case (3 c d cs)
  show ?case
  proof (cases "c = CHR ''_'' \<and> d = CHR ''_''")
    case True
    let ?r = "dropWhile (\<lambda>x. x = CHR ''_'') cs"
    have "?r \<noteq> [] \<Longrightarrow> hd (sub_duplicate ?r) \<noteq> CHR ''_''"
      using dropWhile_head [of "\<lambda>x. x = CHR ''_''" cs] by (simp add: sub_duplicate_head)
    with 3 True show ?thesis
      by (simp add: no_repeat_Cons sub_duplicate_head del: no_repeat.simps)
  next
    case False
    with 3 show ?thesis
      by (simp add: no_repeat_Cons sub_duplicate_head del: no_repeat.simps) auto
  qed
qed simp_all

lemma no_repeat_tl: "no_repeat (c # cs) \<Longrightarrow> no_repeat cs"
  by (simp add: no_repeat_Cons del: no_repeat.simps)

lemma sanitize_shape:
  "(\<forall>c \<in> set (sanitize name). wanted c) \<and> no_repeat (sanitize name) \<and>
   (sanitize name \<noteq> [] \<longrightarrow> hd (sanitize name) \<noteq> CHR ''_'')"
proof -
  let ?d = "sub_duplicate (sub_unwanted name)"
  have w: "\<forall>c \<in> set ?d. wanted c"
    using sub_unwanted_wanted [of _ name] sub_duplicate_subset [of "sub_unwanted name"] by blast
  have n: "no_repeat ?d" by (rule sub_duplicate_no_repeat)
  show ?thesis
  proof (cases ?d)
    case Nil
    then show ?thesis by (simp add: sanitize_def)
  next
    case (Cons c cs)
    with w n show ?thesis
      by (auto simp: sanitize_def no_repeat_Cons simp del: no_repeat.simps)
  qed
qed


text \<open>
  C4. The claim also asks for a stem with no trailing underscore; the third substitution
  removes a leading underscore only, so the name of the claim's own example keeps the
  underscore that stands for its trailing \<open>??\<close>.
\<close>

theorem sanitize_keeps_trailing_underscore:
  "sanitize ''test: weird/name??'' = ''test_weird_name_'' \<and>
   last (sanitize ''test: weird/name??'') = CHR ''_''"
  by (simp add: sanitize_def wanted_def)

subsection \<open>Teardown\<close>

text \<open>
  C3. After a completed \<open>setup\<close>, a second \<open>teardown\<close> finds \<open>self.appmap\<close> still holding
  the closed file object, passes the guard and raises \<open>ValueError\<close> on its first write; the
  state, and with it the document, stays as the first \<open>teardown\<close> left it. When \<open>setup\<close>
  never completed, \<open>teardown\<close> writes the diagnostic to stderr and returns.
\<close>

theorem teardown_twice_raises:
  "snd (teardown (fst (teardown (fst (init item fr True))))) = Some ValueError \<and>
   fst (teardown (fst (teardown (fst (init item fr True))))) =
     fst (teardown (fst (init item fr True))) \<and>
   teardown (fst (init item fr False)) =
     ((fst (init item fr False))\<lparr>stderr := ''no appmap?'' @ [CHR 0x0A]\<rparr>, None)"
  by (simp add: teardown_def init_def setup'_def f_write_def)

subsection \<open>Labels of a function node\<close>

text \<open>
  C6. For a method that is the getter of a property of the receiver's class, what
  \<open>add_function\<close> appends to the labels is not the string \<open>getter\<close> but the list that
  \<open>label_function\<close> returns, itself holding a list: the labels are \<open>[[['getter']]]\<close>.
\<close>

theorem getter_label_nested:
  "fe_labels (new_function_entry getter_entry (Some account_class)) =
     Some [L_list [L_list [L_str ''getter'']]] \<and>
   L_str ''getter'' \<notin> set (the (fe_labels (new_function_entry getter_entry (Some account_class))))"
  by (simp add: new_function_entry_def getter_entry_def account_class_def label_function_def
      name_labels_def Let_def)

subsection \<open>A whole session\<close>

text \<open>
  The constructor and then \<open>withdraw\<close>, each called once: four entries with the ids 1 to 4,
  the returns linked to the calls 1 and 3, one class node, and two function entries, of which
  \<open>__init__\<close> is labelled \<open>ctor\<close>, filed in the dict of the class under the key paths of
  their locations.
\<close>

lemma account_session:
  "map (\<lambda>en. (e_id en, e_event en, e_method_id en, e_parent_id en, e_return_value en))
     (snd (run started [call_init, return_init, call_withdraw, return_amount])) =
   [(1, ''call'', ''__init__'', None, None),
    (2, ''return'', ''__init__'', Some (PyInt 1), None),
    (3, ''call'', ''withdraw'', None, None),
    (4, ''return'', ''withdraw'', Some (PyInt 3),
       Some \<lparr>rv_class = ''builtins.int'', rv_value = ''5''\<rparr>)] \<and>
   classmap (fst (run started [call_init, return_init, call_withdraw, return_amount])) =
     Node ''root'' T_none [Node ''bank'' T_package [Node ''acct'' T_package
       [Node ''Account'' (T_class ''bank.acct.Account'') []]]] \<and>
   get_item (functions' (fst (run started [call_init, return_init, call_withdraw, return_amount])))
       (parse_keys ''bank.acct.Account'') =
     Some (J_dict [(''bank/acct'',
       J_dict [(''py:5'',
                entry_dict \<lparr>fe_type = ''function'', fe_name = ''__init__'',
                  fe_location = ''bank/acct.py:5'', fe_static = False,
                  fe_labels = Some [L_str ''ctor'']\<rparr>),
               (''py:12'',
                entry_dict \<lparr>fe_type = ''function'', fe_name = ''withdraw'',
                  fe_location = ''bank/acct.py:12'', fe_static = False,
                  fe_labels = None\<rparr>)])])"
  by code_simp

end
